theory Spec2Isabelle
  imports Main "HOL-Library.Word" "HOL-Library.FSet"
begin

section \<open>The mesh router (router.go): data model\<close>

text \<open>
  A shallow embedding of \<^verbatim>\<open>router.go\<close> of the mesh package. Every method of
  \<^verbatim>\<open>*Router\<close> takes the router and returns it updated. The collaborators that live in
  other files of the package (Peers, routes, connectionMaker, gossipChannel, the gob
  decoder) are either parameters of the functions that call them or, where the router only
  fires them, entries of a call log kept in the router.
\<close>

type_synonym byte = "8 word"
type_synonym bytes = "byte list"

text \<open>
  Modelled from the spec: the declaration of \<^verbatim>\<open>PeerName\<close> is not in router.go. The spec
  (section 3) calls it an opaque fixed-width integer-like identifier; a 64-bit word here.
  \<^verbatim>\<open>peerNameSet\<close> is \<^verbatim>\<open>map[PeerName]struct{}\<close>: a finite set of names, \<^verbatim>\<open>len\<close> its
  cardinality. A nil map and an empty map are both the empty set (the code only ever takes
  \<^verbatim>\<open>len\<close> of one and ranges over it).
\<close>

type_synonym PeerName = "64 word"
type_synonym peerNameSet = "PeerName fset"

text \<open>
  Go errors. The two errors router.go builds itself (\<^verbatim>\<open>fmt.Errorf\<close> at lines 150 and
  268) carry the value they format; every error that comes back from a collaborator is a
  \<open>ForeignError\<close>.
\<close>

datatype error =
    DuplicateChannel string
  | UnexpectedTopologyUnicast bytes
  | ForeignError string

text \<open>
  Modelled from the spec: \<^verbatim>\<open>protocolTag\<close> and its constants are declared outside
  router.go. The spec (section 3) gives the Protocol Tag exactly these three values, the
  three that the \<^verbatim>\<open>switch\<close> of \<^verbatim>\<open>handleGossip\<close> names.
\<close>

datatype protocolTag = ProtocolGossip | ProtocolGossipUnicast | ProtocolGossipBroadcast

text \<open>
  The values of the interface \<^verbatim>\<open>Gossiper\<close> that a channel can be bound to: the router
  itself (\<^verbatim>\<open>router.NewGossip("topology", router)\<close>), the default
  \<^verbatim>\<open>&surrogateGossiper{router: router}\<close>, or an implementation from outside the package
  (given to \<^verbatim>\<open>NewGossip\<close> or made by a \<^verbatim>\<open>GossiperMaker\<close>).
\<close>

datatype 'g Gossiper = RouterGossiper | surrogateGossiper | ForeignGossiper 'g

text \<open>
  \<^verbatim>\<open>*gossipChannel\<close>. The struct is declared in another file; its fields here are the
  arguments \<^verbatim>\<open>newGossipChannel\<close> receives in router.go (the logger is the router's, see
  \<open>logger\<close> below). Channels are handled by pointer: \<open>addr\<close> is the address of the
  object, so that two channels built from equal arguments by two calls of
  \<^verbatim>\<open>newGossipChannel\<close> are still two channels.
\<close>

record 'g gossipChannel =
  addr :: nat
  name :: string
  ourself :: nat
  routes :: nat
  gossiper :: "'g Gossiper"

text \<open>
  Modelled from the spec: \<^verbatim>\<open>tokenBucket\<close>, \<^verbatim>\<open>newTokenBucket\<close> and \<^verbatim>\<open>wait\<close> are not in
  router.go. Spec, section 3: capacity (max tokens), current token count, refill delay;
  section 4.3: tokens regenerate one at a time after the delay has elapsed since the last
  consumption. Times and durations are integers in nanoseconds, as \<^verbatim>\<open>time.Duration\<close>.
\<close>

record tokenBucket =
  capacity :: nat
  tokens :: nat
  refillDelay :: int
  lastConsumption :: "int option"

text \<open>The calls the router makes on ConnectionMaker and Routes, in the order made.\<close>

datatype collaborator_call = ConnectionMaker_refresh | Routes_recalculate

text \<open>
  \<^verbatim>\<open>Router\<close>. \<open>Ourself\<close>, \<open>Peers\<close> and \<open>Routes\<close> are the pointers the struct holds;
  \<open>Peers_obj\<close> is the state of the object \<open>Peers\<close> points to, which
  \<^verbatim>\<open>Peers.applyUpdate\<close> mutates. \<open>calls\<close> logs \<^verbatim>\<open>ConnectionMaker.refresh()\<close> and
  \<^verbatim>\<open>Routes.recalculate()\<close>; \<open>logger\<close> collects the lines channels log (channel name,
  message); \<open>allocated\<close> counts the gossipChannel objects built so far and is the address
  of the next one. \<open>gossipLock\<close> is not a field: each function below that runs under the
  lock is one atomic step. \<^verbatim>\<open>Config\<close> and \<^verbatim>\<open>Overlay\<close> are read by none of the functions
  modelled and are left out.
\<close>

record ('p, 'g) Router =
  Ourself :: nat
  Peers :: nat
  Peers_obj :: 'p
  Routes :: nat
  GossiperMaker :: "(string \<Rightarrow> 'g Gossiper) option"
  gossipChannels :: "string \<rightharpoonup> 'g gossipChannel"
  topologyGossip :: "'g gossipChannel option"
  acceptLimiter :: "tokenBucket option"
  calls :: "collaborator_call list"
  logger :: "(string \<times> string) list"
  allocated :: nat

text \<open>\<^verbatim>\<open>topologyGossipData\<close>: the pointer to Peers and the set of names.\<close>

record topologyGossipData =
  peers :: nat
  update :: peerNameSet

section \<open>Constants\<close>

definition Millisecond :: int where
  "Millisecond = 1000000"

definition acceptMaxTokens :: nat where
  "acceptMaxTokens = 20"

definition acceptTokenDelay :: int where
  "acceptTokenDelay = 50 * Millisecond"

section \<open>The channel registry\<close>

text \<open>
  Modelled from the spec: \<^verbatim>\<open>newGossipChannel\<close> is not in router.go. It constructs a new
  channel bound to the gossiper it is given (spec, section 4.1); the first argument is the
  address the new object gets.
\<close>

definition newGossipChannel ::
  "nat \<Rightarrow> string \<Rightarrow> nat \<Rightarrow> nat \<Rightarrow> 'g Gossiper \<Rightarrow> 'g gossipChannel" where
  "newGossipChannel a channelName self rts g =
     \<lparr>addr = a, name = channelName, ourself = self, routes = rts, gossiper = g\<rparr>"

text \<open>
  \<^verbatim>\<open>NewGossip\<close> (lines 145-154). The channel is built before the lock is taken and
  before the duplicate check, so a failed call has still allocated one object.
\<close>

definition NewGossip ::
  "('p, 'g) Router \<Rightarrow> string \<Rightarrow> 'g Gossiper \<Rightarrow> (error + 'g gossipChannel) \<times> ('p, 'g) Router" where
  "NewGossip router channelName g =
     (let channel = newGossipChannel (allocated router) channelName (Ourself router) (Routes router) g;
          router = router\<lparr>allocated := Suc (allocated router)\<rparr>
      in case gossipChannels router channelName of
           Some _ \<Rightarrow> (Inl (DuplicateChannel channelName), router)
         | None \<Rightarrow>
             (Inr channel,
              router\<lparr>gossipChannels := (gossipChannels router)(channelName \<mapsto> channel)\<rparr>))"

text \<open>\<^verbatim>\<open>GetGossip\<close> (lines 157-161): nil when the channel is not there.\<close>

definition GetGossip :: "('p, 'g) Router \<Rightarrow> string \<Rightarrow> 'g gossipChannel option" where
  "GetGossip router channelName = gossipChannels router channelName"

text \<open>
  \<^verbatim>\<open>gossipChannel\<close> (lines 163-189) has two critical sections. The first (lines 164-166)
  reads the map under the read lock.
\<close>

definition gossipChannel_RLocked :: "('p, 'g) Router \<Rightarrow> string \<Rightarrow> 'g gossipChannel option" where
  "gossipChannel_RLocked router channelName = gossipChannels router channelName"

text \<open>
  The second (lines 170-188) runs under the write lock: it looks again, and only when the
  name is still absent asks the \<^verbatim>\<open>GossiperMaker\<close> (or takes the default surrogate), builds
  the channel, logs and stores it. \<^verbatim>\<open>MakeGossiper\<close> also receives the router; it runs
  while the write lock is held, so it cannot use the registry and return, and it is a
  function of the name here.
\<close>

definition gossipChannel_Locked ::
  "('p, 'g) Router \<Rightarrow> string \<Rightarrow> 'g gossipChannel \<times> ('p, 'g) Router" where
  "gossipChannel_Locked router channelName =
     (case gossipChannels router channelName of
        Some channel \<Rightarrow> (channel, router)
      | None \<Rightarrow>
          (let g = (case GossiperMaker router of
                      Some MakeGossiper \<Rightarrow> MakeGossiper channelName
                    | None \<Rightarrow> surrogateGossiper);
               channel = newGossipChannel (allocated router) channelName
                           (Ourself router) (Routes router) g;
               router = router\<lparr>allocated := Suc (allocated router)\<rparr>;
               router = router\<lparr>logger := logger router @ [(name channel, ''created surrogate channel'')]\<rparr>;
               router = router\<lparr>gossipChannels := (gossipChannels router)(channelName \<mapsto> channel)\<rparr>
           in (channel, router)))"

definition gossipChannel ::
  "('p, 'g) Router \<Rightarrow> string \<Rightarrow> 'g gossipChannel \<times> ('p, 'g) Router" where
  "gossipChannel router channelName =
     (case gossipChannel_RLocked router channelName of
        Some channel \<Rightarrow> (channel, router)
      | None \<Rightarrow> gossipChannel_Locked router channelName)"

section \<open>The router as the gossiper of the topology channel\<close>

text \<open>
  \<^verbatim>\<open>applyTopologyUpdate\<close> (lines 297-307). \<^verbatim>\<open>Peers.applyUpdate\<close> is in another file and
  is the parameter \<open>applyUpdate\<close>: from the state of Peers and the bytes it gives the three
  values the Go method returns and the new state of Peers.
\<close>

type_synonym 'p applyUpdate_fn =
  "'p \<Rightarrow> bytes \<Rightarrow> (peerNameSet \<times> peerNameSet \<times> error option) \<times> 'p"

definition applyTopologyUpdate ::
  "'p applyUpdate_fn \<Rightarrow> ('p, 'g) Router \<Rightarrow> bytes \<Rightarrow>
     (peerNameSet \<times> peerNameSet \<times> error option) \<times> ('p, 'g) Router" where
  "applyTopologyUpdate applyUpdate router upd =
     (let ((origUpdate, newUpdate, err), p) = applyUpdate (Peers_obj router) upd;
          router = router\<lparr>Peers_obj := p\<rparr>
      in if err \<noteq> None then (({||}, {||}, err), router)
         else if fcard newUpdate > 0
         then ((origUpdate, newUpdate, None),
               router\<lparr>calls := calls router @ [ConnectionMaker_refresh, Routes_recalculate]\<rparr>)
         else ((origUpdate, newUpdate, None), router))"

text \<open>\<^verbatim>\<open>OnGossipUnicast\<close> (lines 267-269).\<close>

definition OnGossipUnicast ::
  "('p, 'g) Router \<Rightarrow> PeerName \<Rightarrow> bytes \<Rightarrow> error option \<times> ('p, 'g) Router" where
  "OnGossipUnicast router sender msg = (Some (UnexpectedTopologyUnicast msg), router)"

text \<open>\<^verbatim>\<open>OnGossipBroadcast\<close> (lines 273-279). The result is the Go pair (GossipData, error).\<close>

definition OnGossipBroadcast ::
  "'p applyUpdate_fn \<Rightarrow> ('p, 'g) Router \<Rightarrow> PeerName \<Rightarrow> bytes \<Rightarrow>
     (topologyGossipData option \<times> error option) \<times> ('p, 'g) Router" where
  "OnGossipBroadcast applyUpdate router sender upd =
     (let ((origUpdate, _, err), router) = applyTopologyUpdate applyUpdate router upd
      in if err \<noteq> None \<or> fcard origUpdate = 0 then ((None, err), router)
         else ((Some \<lparr>peers = Peers router, update = origUpdate\<rparr>, None), router))"

text \<open>\<^verbatim>\<open>OnGossip\<close> (lines 289-295).\<close>

definition OnGossip ::
  "'p applyUpdate_fn \<Rightarrow> ('p, 'g) Router \<Rightarrow> bytes \<Rightarrow>
     (topologyGossipData option \<times> error option) \<times> ('p, 'g) Router" where
  "OnGossip applyUpdate router upd =
     (let ((_, newUpdate, err), router) = applyTopologyUpdate applyUpdate router upd
      in if err \<noteq> None \<or> fcard newUpdate = 0 then ((None, err), router)
         else ((Some \<lparr>peers = Peers router, update = newUpdate\<rparr>, None), router))"

text \<open>
  \<^verbatim>\<open>topologyGossipData.Merge\<close> (lines 331-340): a fresh set, then one loop over each
  operand's names that puts every name in. \<^verbatim>\<open>range\<close> over a map visits every key once in
  no fixed order, which is a fold over the finite set. The type assertion
  \<^verbatim>\<open>other.(*topologyGossipData)\<close> is the type of the second argument.
\<close>

definition Merge :: "topologyGossipData \<Rightarrow> topologyGossipData \<Rightarrow> topologyGossipData" where
  "Merge d other =
     (let names = {||};
          names = ffold finsert names (update d);
          names = ffold finsert names (update other)
      in \<lparr>peers = peers d, update = names\<rparr>)"

section \<open>Dispatch of inbound gossip\<close>

text \<open>
  \<^verbatim>\<open>encoding/gob\<close> is a parameter of \<^verbatim>\<open>handleGossip\<close>: a decoder is a state \<open>'d\<close>,
  \<^verbatim>\<open>gob.NewDecoder(bytes.NewReader(payload))\<close> makes one from the payload, and
  \<^verbatim>\<open>decoder.Decode(&v)\<close> either fails with an error or gives the value and the decoder
  advanced past it, one function per type of \<open>v\<close> that router.go decodes.
\<close>

record 'd gob =
  NewDecoder :: "bytes \<Rightarrow> 'd"
  Decode_string :: "'d \<Rightarrow> error + string \<times> 'd"
  Decode_PeerName :: "'d \<Rightarrow> error + PeerName \<times> 'd"

text \<open>
  The three delivery methods of \<^verbatim>\<open>*gossipChannel\<close> are in another file and are parameters
  too. Each receives the channel, the sender, the whole payload and the decoder, may change
  the router (the topology channel's gossiper is the router), and returns the error
  \<^verbatim>\<open>handleGossip\<close> passes on.
\<close>

record ('g, 'd, 'r) deliveries =
  deliverUnicast :: "'g gossipChannel \<Rightarrow> PeerName \<Rightarrow> bytes \<Rightarrow> 'd \<Rightarrow> 'r \<Rightarrow> error option \<times> 'r"
  deliverBroadcast :: "'g gossipChannel \<Rightarrow> PeerName \<Rightarrow> bytes \<Rightarrow> 'd \<Rightarrow> 'r \<Rightarrow> error option \<times> 'r"
  deliver :: "'g gossipChannel \<Rightarrow> PeerName \<Rightarrow> bytes \<Rightarrow> 'd \<Rightarrow> 'r \<Rightarrow> error option \<times> 'r"

text \<open>
  \<^verbatim>\<open>handleGossip\<close> (lines 209-229). Over the three tags of \<open>protocolTag\<close> the
  \<^verbatim>\<open>switch\<close> always returns, so the \<^verbatim>\<open>return nil\<close> after it (line 228) has no case here.
\<close>

definition handleGossip ::
  "'d gob \<Rightarrow> ('g, 'd, ('p, 'g) Router) deliveries \<Rightarrow> ('p, 'g) Router \<Rightarrow> protocolTag \<Rightarrow> bytes \<Rightarrow>
     error option \<times> ('p, 'g) Router" where
  "handleGossip gob dl router tag payload =
     (let decoder = NewDecoder gob payload
      in case Decode_string gob decoder of
           Inl err \<Rightarrow> (Some err, router)
         | Inr (channelName, decoder) \<Rightarrow>
             (let (channel, router) = gossipChannel router channelName
              in case Decode_PeerName gob decoder of
                   Inl err \<Rightarrow> (Some err, router)
                 | Inr (srcName, decoder) \<Rightarrow>
                     (case tag of
                        ProtocolGossipUnicast \<Rightarrow> deliverUnicast dl channel srcName payload decoder router
                      | ProtocolGossipBroadcast \<Rightarrow> deliverBroadcast dl channel srcName payload decoder router
                      | ProtocolGossip \<Rightarrow> deliver dl channel srcName payload decoder router)))"

section \<open>Goroutines resolving channels concurrently\<close>

text \<open>
  A goroutine inside \<^verbatim>\<open>gossipChannel(channelName)\<close> is at one of three points: about to
  take the read lock, about to take the write lock (the read found nothing), or returned
  with a channel. A step runs one critical section; the lock makes it atomic.
\<close>

datatype 'g resolver = AtRLock string | AtLock string | Returned "'g gossipChannel"

fun resolver_step :: "('p, 'g) Router \<Rightarrow> 'g resolver \<Rightarrow> 'g resolver \<times> ('p, 'g) Router" where
  "resolver_step router (AtRLock channelName) =
     (case gossipChannel_RLocked router channelName of
        Some channel \<Rightarrow> (Returned channel, router)
      | None \<Rightarrow> (AtLock channelName, router))"
| "resolver_step router (AtLock channelName) =
     (let (channel, router) = gossipChannel_Locked router channelName
      in (Returned channel, router))"
| "resolver_step router (Returned channel) = (Returned channel, router)"

text \<open>
  A schedule is the list of the goroutines' indices in the order they step; an index that
  names no goroutine is skipped.
\<close>

fun interleave ::
  "nat list \<Rightarrow> ('p, 'g) Router \<times> 'g resolver list \<Rightarrow> ('p, 'g) Router \<times> 'g resolver list" where
  "interleave [] s = s"
| "interleave (i # sched) (router, ts) =
     (if i < length ts
      then (let (t, router) = resolver_step router (ts ! i)
            in interleave sched (router, ts[i := t]))
      else interleave sched (router, ts))"

text \<open>The critical sections a goroutine still has to run before it has returned, at most.\<close>

fun steps_left :: "'g resolver \<Rightarrow> nat" where
  "steps_left (AtRLock _) = 2"
| "steps_left (AtLock _) = 1"
| "steps_left (Returned _) = 0"

section \<open>The rate limiter of the accept loop\<close>

text \<open>
  Modelled from the spec (section 4.3), with the clock explicit: \<open>wait now tb\<close> is a call
  of \<^verbatim>\<open>Wait()\<close> issued at time \<open>now\<close>; it gives the time at which the call returns and
  the bucket it leaves, or \<open>None\<close> when the call never returns (a bucket of capacity 0
  never holds a token). A new bucket is full. One token regenerates for every whole
  \<open>refillDelay\<close> elapsed since the last consumption, up to the capacity.
\<close>

definition newTokenBucket :: "nat \<Rightarrow> int \<Rightarrow> tokenBucket" where
  "newTokenBucket cap d = \<lparr>capacity = cap, tokens = cap, refillDelay = d, lastConsumption = None\<rparr>"

definition regenerated :: "int \<Rightarrow> tokenBucket \<Rightarrow> nat" where
  "regenerated now tb =
     (case lastConsumption tb of
        None \<Rightarrow> 0
      | Some t \<Rightarrow>
          if refillDelay tb \<le> 0 then capacity tb
          else nat ((now - t) div refillDelay tb))"

definition available :: "int \<Rightarrow> tokenBucket \<Rightarrow> nat" where
  "available now tb = min (capacity tb) (tokens tb + regenerated now tb)"

definition wait :: "int \<Rightarrow> tokenBucket \<Rightarrow> (int \<times> tokenBucket) option" where
  "wait now tb =
     (if capacity tb = 0 then None
      else if 0 < available now tb
      then Some (now, tb\<lparr>tokens := available now tb - 1, lastConsumption := Some now\<rparr>)
      else (let t = (case lastConsumption tb of None \<Rightarrow> now | Some t \<Rightarrow> t) + refillDelay tb
            in Some (t, tb\<lparr>tokens := 0, lastConsumption := Some t\<rparr>)))"

text \<open>
  \<open>waits k now tb\<close>: \<open>k\<close> calls of \<^verbatim>\<open>Wait()\<close> with no delay between them, the first issued
  at \<open>now\<close> and each next one at the moment the one before returned. The result lists the
  times at which the calls returned.
\<close>

fun waits :: "nat \<Rightarrow> int \<Rightarrow> tokenBucket \<Rightarrow> (int list \<times> tokenBucket) option" where
  "waits 0 now tb = Some ([], tb)"
| "waits (Suc k) now tb =
     (case wait now tb of
        None \<Rightarrow> None
      | Some (t, tb1) \<Rightarrow>
          (case waits k t tb1 of
             None \<Rightarrow> None
           | Some (ts, tb2) \<Rightarrow> Some (t # ts, tb2)))"

section \<open>Construction\<close>

text \<open>
  \<^verbatim>\<open>NewRouter\<close> (lines 70-93). The constructors of the local peer, Peers, routes and the
  connection maker are in other files; the objects they build are arguments here. What is
  left is the empty registry, the registration of the router as the gossiper of
  \<^verbatim>\<open>"topology"\<close>, and the accept limiter.
\<close>

definition NewRouter :: "nat \<Rightarrow> nat \<Rightarrow> 'p \<Rightarrow> nat \<Rightarrow> error + ('p, 'g) Router" where
  "NewRouter self peersPtr peersObj rts =
     (let router = \<lparr>Ourself = self, Peers = peersPtr, Peers_obj = peersObj, Routes = rts,
                     GossiperMaker = None, gossipChannels = Map.empty, topologyGossip = None,
                     acceptLimiter = None, calls = [], logger = [], allocated = 0\<rparr>;
          (res, router) = NewGossip router ''topology'' RouterGossiper
      in case res of
           Inl err \<Rightarrow> Inl err
         | Inr gossip \<Rightarrow>
             Inr (router\<lparr>topologyGossip := Some gossip,
                          acceptLimiter := Some (newTokenBucket acceptMaxTokens acceptTokenDelay)\<rparr>))"

section \<open>Concrete collaborators\<close>

text \<open>
  Modelled from the spec: \<^verbatim>\<open>Peers.applyUpdate\<close> (section 6) decodes a wire-format
  membership update, merges it into the local membership, and reports what the sender sent
  and what was new to the receiver. The state of Peers is the set of names known. The wire
  format is not specified; here an update is a count byte followed by that many bytes, one
  name each.
\<close>

definition decodePeers :: "bytes \<Rightarrow> peerNameSet option" where
  "decodePeers upd =
     (case upd of
        [] \<Rightarrow> None
      | n # rest \<Rightarrow> if unat n = length rest then Some (fset_of_list (map ucast rest)) else None)"

definition Peers_applyUpdate :: "peerNameSet applyUpdate_fn" where
  "Peers_applyUpdate known upd =
     (case decodePeers upd of
        None \<Rightarrow> (({||}, {||}, Some (ForeignError ''malformed update'')), known)
      | Some names \<Rightarrow> ((names, names |-| known, None), known |\<union>| names))"

text \<open>
  A small binary codec to stand for gob where a concrete decoder is needed: the decoder is
  the bytes not yet read, a string is a length byte followed by its characters, a PeerName
  is one byte.
\<close>

definition read_string :: "bytes \<Rightarrow> error + string \<times> bytes" where
  "read_string bs =
     (case bs of
        [] \<Rightarrow> Inl (ForeignError ''EOF'')
      | n # rest \<Rightarrow>
          if unat n \<le> length rest
          then Inr (map (\<lambda>b. char_of (unat b)) (take (unat n) rest), drop (unat n) rest)
          else Inl (ForeignError ''unexpected EOF''))"

definition read_PeerName :: "bytes \<Rightarrow> error + PeerName \<times> bytes" where
  "read_PeerName bs =
     (case bs of
        [] \<Rightarrow> Inl (ForeignError ''EOF'')
      | b # rest \<Rightarrow> Inr (ucast b, rest))"

definition byte_codec :: "bytes gob" where
  "byte_codec = \<lparr>NewDecoder = (\<lambda>payload. payload), Decode_string = read_string,
                  Decode_PeerName = read_PeerName\<rparr>"

text \<open>
  Deliveries that only log which of the three ran, on which channel, and return no error.
\<close>

definition logging_deliveries ::
  "('g, bytes, ('p, 'g) Router) deliveries" where
  "logging_deliveries =
     \<lparr>deliverUnicast = (\<lambda>channel srcName payload decoder router.
          (None, router\<lparr>logger := logger router @ [(name channel, ''deliverUnicast'')]\<rparr>)),
      deliverBroadcast = (\<lambda>channel srcName payload decoder router.
          (None, router\<lparr>logger := logger router @ [(name channel, ''deliverBroadcast'')]\<rparr>)),
      deliver = (\<lambda>channel srcName payload decoder router.
          (None, router\<lparr>logger := logger router @ [(name channel, ''deliver'')]\<rparr>))\<rparr>"

text \<open>
  The router \<^verbatim>\<open>NewRouter\<close> builds when Peers starts out knowing the local peer (name 1)
  only.
\<close>

definition router0 :: "(peerNameSet, unit) Router" where
  "router0 =
     \<lparr>Ourself = 1, Peers = 2, Peers_obj = {|1|}, Routes = 3,
      GossiperMaker = None,
      gossipChannels = [''topology'' \<mapsto> newGossipChannel 0 ''topology'' 1 3 RouterGossiper],
      topologyGossip = Some (newGossipChannel 0 ''topology'' 1 3 RouterGossiper),
      acceptLimiter = Some (newTokenBucket acceptMaxTokens acceptTokenDelay),
      calls = [], logger = [], allocated = 1\<rparr>"

section \<open>Properties\<close>

lemma NewRouter_router0: "NewRouter 1 2 {|1|} 3 = Inr router0"
  by (simp add: NewRouter_def NewGossip_def router0_def Let_def)

lemma comp_fun_idem_finsert: "comp_fun_idem (finsert :: 'a \<Rightarrow> 'a fset \<Rightarrow> 'a fset)"
  by unfold_locales auto

lemma ffold_finsert_union: "ffold finsert B A = A |\<union>| B"
proof (induction A)
  case empty
  show ?case
    by (simp add: comp_fun_commute.ffold_empty
        [OF comp_fun_idem.axioms(1) [OF comp_fun_idem_finsert]])
next
  case (insert x A)
  then show ?case
    by (simp add: comp_fun_idem.ffold_finsert_idem [OF comp_fun_idem_finsert])
qed

lemma fcard_pos_iff: "0 < fcard A \<longleftrightarrow> A \<noteq> {||}"
proof -
  have "(fcard A = 0) = (A = {||})" by simp
  then show ?thesis by linarith
qed

subsection \<open>The topology gossiper\<close>

lemma applyTopologyUpdate_ok:
  assumes "applyUpdate (Peers_obj router) upd = ((origUpdate, newUpdate, None), p)"
  shows "applyTopologyUpdate applyUpdate router upd =
           ((origUpdate, newUpdate, None),
            router\<lparr>Peers_obj := p,
                   calls := calls router @
                     (if newUpdate = {||} then [] else [ConnectionMaker_refresh, Routes_recalculate])\<rparr>)"
  using assms by (simp add: applyTopologyUpdate_def Let_def fcard_pos_iff)

lemma applyTopologyUpdate_err:
  assumes "applyUpdate (Peers_obj router) upd = ((origUpdate, newUpdate, Some err), p)"
  shows "applyTopologyUpdate applyUpdate router upd =
           (({||}, {||}, Some err), router\<lparr>Peers_obj := p\<rparr>)"
  using assms by (simp add: applyTopologyUpdate_def Let_def)

text \<open>Three updates applied to a Peers that knows peer 1 only.\<close>

lemma Peers_applyUpdate_redundant:
  "Peers_applyUpdate {|1|} [1, 1] = (({|1|}, {||}, None), {|1|})"
  by (simp add: Peers_applyUpdate_def decodePeers_def finsert_fminus_if)

lemma Peers_applyUpdate_new:
  "Peers_applyUpdate {|1|} [2, 1, 5] = (({|1, 5|}, {|5|}, None), {|1, 5|})"
  by (auto simp add: Peers_applyUpdate_def decodePeers_def finsert_fminus_if)

lemma Peers_applyUpdate_malformed:
  "Peers_applyUpdate {|1|} [2, 1] =
     (({||}, {||}, Some (ForeignError ''malformed update'')), {|1|})"
  by (simp add: Peers_applyUpdate_def decodePeers_def)

lemma Peers_obj_router0: "Peers_obj router0 = {|1|}"
  by (simp add: router0_def)

text \<open>
  C1, as the spec states it, fails on the code. The update \<open>[1, 1]\<close> names peer 1, which
  the receiver already knows: its application succeeds and reports nothing new, and
  \<^verbatim>\<open>OnGossipBroadcast\<close> still returns the received delta to relay, since line 275 tests
  \<^verbatim>\<open>len(origUpdate)\<close>, not what was new.
\<close>

theorem OnGossipBroadcast_redundant_still_relayed:
  "Peers_applyUpdate (Peers_obj router0) [1, 1] = (({|1|}, {||}, None), {|1|})
   \<and> fst (OnGossipBroadcast Peers_applyUpdate router0 7 [1, 1]) =
       (Some \<lparr>peers = Peers router0, update = {|1|}\<rparr>, None)
   \<and> fst (fst (OnGossipBroadcast Peers_applyUpdate router0 7 [1, 1])) \<noteq> None"
  by (simp add: OnGossipBroadcast_def applyTopologyUpdate_def Peers_obj_router0
      Peers_applyUpdate_redundant Let_def fcard_pos_iff)

text \<open>
  C1, amended. For the topology channel, \<^verbatim>\<open>OnGossipBroadcast\<close> applies the payload as a
  membership delta to Peers and, for every payload whose application succeeds: if the
  received delta names no peer (\<open>origUpdate\<close> is empty) it returns nothing to relay;
  otherwise it returns the original received delta unchanged, whether or not any of it was
  new to the receiver.
\<close>

theorem OnGossipBroadcast_relays_received:
  assumes "applyUpdate (Peers_obj router) upd = ((origUpdate, newUpdate, None), p)"
  shows "fst (OnGossipBroadcast applyUpdate router sender upd) =
           (if origUpdate = {||} then None
            else Some \<lparr>peers = Peers router, update = origUpdate\<rparr>, None)
         \<and> Peers_obj (snd (OnGossipBroadcast applyUpdate router sender upd)) = p"
  using applyTopologyUpdate_ok [of applyUpdate, OF assms] by (simp add: OnGossipBroadcast_def)

theorem OnGossipBroadcast_relays_received_witness:
  "Peers_applyUpdate (Peers_obj router0) [2, 1, 5] = (({|1, 5|}, {|5|}, None), {|1, 5|})
   \<and> fst (OnGossipBroadcast Peers_applyUpdate router0 7 [2, 1, 5]) =
       (Some \<lparr>peers = Peers router0, update = {|1, 5|}\<rparr>, None)
   \<and> Peers_obj (snd (OnGossipBroadcast Peers_applyUpdate router0 7 [2, 1, 5])) = {|1, 5|}"
proof -
  have h: "Peers_applyUpdate (Peers_obj router0) [2, 1, 5] = (({|1, 5|}, {|5|}, None), {|1, 5|})"
    by (simp add: Peers_obj_router0 Peers_applyUpdate_new)
  show ?thesis
    using h OnGossipBroadcast_relays_received [of Peers_applyUpdate router0, OF h, of 7]
    by simp
qed

text \<open>
  C2. For every topology update that \<^verbatim>\<open>OnGossipBroadcast\<close> or \<^verbatim>\<open>OnGossip\<close> applies
  successfully: when it brings at least one new name (\<open>newUpdate\<close> is not empty), the
  router calls \<^verbatim>\<open>ConnectionMaker.refresh()\<close> and \<^verbatim>\<open>Routes.recalculate()\<close> once each, and
  makes no other call; when it brings none, the router calls neither.
\<close>

theorem topology_update_refreshes_and_recalculates_once:
  assumes "applyUpdate (Peers_obj router) upd = ((origUpdate, newUpdate, None), p)"
  shows "calls (snd (OnGossipBroadcast applyUpdate router sender upd)) =
           calls router @
             (if newUpdate = {||} then [] else [ConnectionMaker_refresh, Routes_recalculate])
         \<and> calls (snd (OnGossip applyUpdate router upd)) =
           calls router @
             (if newUpdate = {||} then [] else [ConnectionMaker_refresh, Routes_recalculate])"
  using applyTopologyUpdate_ok [of applyUpdate, OF assms]
  by (simp add: OnGossipBroadcast_def OnGossip_def)

theorem topology_update_refreshes_and_recalculates_once_witness:
  "Peers_applyUpdate (Peers_obj router0) [2, 1, 5] = (({|1, 5|}, {|5|}, None), {|1, 5|})
   \<and> calls (snd (OnGossipBroadcast Peers_applyUpdate router0 7 [2, 1, 5])) =
       [ConnectionMaker_refresh, Routes_recalculate]
   \<and> calls (snd (OnGossip Peers_applyUpdate router0 [2, 1, 5])) =
       [ConnectionMaker_refresh, Routes_recalculate]
   \<and> Peers_applyUpdate (Peers_obj router0) [1, 1] = (({|1|}, {||}, None), {|1|})
   \<and> calls (snd (OnGossipBroadcast Peers_applyUpdate router0 7 [1, 1])) = []
   \<and> calls (snd (OnGossip Peers_applyUpdate router0 [1, 1])) = []"
proof -
  have new: "Peers_applyUpdate (Peers_obj router0) [2, 1, 5] = (({|1, 5|}, {|5|}, None), {|1, 5|})"
    by (simp add: Peers_obj_router0 Peers_applyUpdate_new)
  have old: "Peers_applyUpdate (Peers_obj router0) [1, 1] = (({|1|}, {||}, None), {|1|})"
    by (simp add: Peers_obj_router0 Peers_applyUpdate_redundant)
  have c: "calls router0 = []"
    by (simp add: router0_def)
  show ?thesis
    using new old c
      topology_update_refreshes_and_recalculates_once [of Peers_applyUpdate router0, OF new, of 7]
      topology_update_refreshes_and_recalculates_once [of Peers_applyUpdate router0, OF old, of 7]
    by simp
qed

text \<open>
  C3. For the topology channel, \<^verbatim>\<open>OnGossip\<close> applies the payload to Peers and, for every
  payload whose application succeeds, returns exactly the improvement
  \<^verbatim>\<open>Peers.applyUpdate\<close> reported (\<open>newUpdate\<close>, whatever the sender sent), and nothing to
  relay when that improvement is empty.
\<close>

theorem OnGossip_relays_improvement:
  assumes "applyUpdate (Peers_obj router) upd = ((origUpdate, newUpdate, None), p)"
  shows "fst (OnGossip applyUpdate router upd) =
           (if newUpdate = {||} then None
            else Some \<lparr>peers = Peers router, update = newUpdate\<rparr>, None)
         \<and> Peers_obj (snd (OnGossip applyUpdate router upd)) = p"
  using applyTopologyUpdate_ok [of applyUpdate, OF assms] by (simp add: OnGossip_def)

theorem OnGossip_relays_improvement_witness:
  "Peers_applyUpdate (Peers_obj router0) [2, 1, 5] = (({|1, 5|}, {|5|}, None), {|1, 5|})
   \<and> fst (OnGossip Peers_applyUpdate router0 [2, 1, 5]) =
       (Some \<lparr>peers = Peers router0, update = {|5|}\<rparr>, None)
   \<and> Peers_obj (snd (OnGossip Peers_applyUpdate router0 [2, 1, 5])) = {|1, 5|}
   \<and> Peers_applyUpdate (Peers_obj router0) [1, 1] = (({|1|}, {||}, None), {|1|})
   \<and> fst (OnGossip Peers_applyUpdate router0 [1, 1]) = (None, None)"
proof -
  have new: "Peers_applyUpdate (Peers_obj router0) [2, 1, 5] = (({|1, 5|}, {|5|}, None), {|1, 5|})"
    by (simp add: Peers_obj_router0 Peers_applyUpdate_new)
  have old: "Peers_applyUpdate (Peers_obj router0) [1, 1] = (({|1|}, {||}, None), {|1|})"
    by (simp add: Peers_obj_router0 Peers_applyUpdate_redundant)
  show ?thesis
    using new old
      OnGossip_relays_improvement [of Peers_applyUpdate router0, OF new]
      OnGossip_relays_improvement [of Peers_applyUpdate router0, OF old]
    by simp
qed

text \<open>
  C4. \<^verbatim>\<open>Merge\<close> of two topology gossip data values is the union of their name sets (and
  keeps the receiver's pointer to Peers); \<open>Merge a b\<close> and \<open>Merge b a\<close> hold the same set,
  and \<open>Merge a a\<close> is \<open>a\<close>.
\<close>

theorem Merge_union_commutative_idempotent:
  "update (Merge a b) = update a |\<union>| update b
   \<and> peers (Merge a b) = peers a
   \<and> update (Merge a b) = update (Merge b a)
   \<and> Merge a a = a"
  by (auto simp add: Merge_def Let_def ffold_finsert_union)

subsection \<open>The channel registry\<close>

lemma gossipChannels_router0_topology:
  "gossipChannels router0 ''topology'' = Some (newGossipChannel 0 ''topology'' 1 3 RouterGossiper)"
  by (simp add: router0_def)

lemma gossipChannels_router0_app: "gossipChannels router0 ''app'' = None"
  by (simp add: router0_def)

text \<open>
  C5. For every registry state and every name: \<^verbatim>\<open>NewGossip\<close> under a name that already
  has a channel returns the duplicate error and leaves the registry mapping as it was (the
  first channel is still stored under the name; only the allocation count of the router
  moves); under a fresh name it returns a channel of that name bound to the given gossiper
  and stores it under the name.
\<close>

theorem NewGossip_duplicate_or_fresh:
  "(\<forall>first. gossipChannels router channelName = Some first \<longrightarrow>
      fst (NewGossip router channelName g) = Inl (DuplicateChannel channelName)
      \<and> snd (NewGossip router channelName g) = router\<lparr>allocated := Suc (allocated router)\<rparr>
      \<and> gossipChannels (snd (NewGossip router channelName g)) = gossipChannels router
      \<and> gossipChannels (snd (NewGossip router channelName g)) channelName = Some first)
   \<and> (gossipChannels router channelName = None \<longrightarrow>
      (\<exists>channel.
         fst (NewGossip router channelName g) = Inr channel
         \<and> name channel = channelName \<and> gossiper channel = g
         \<and> gossipChannels (snd (NewGossip router channelName g)) =
             (gossipChannels router)(channelName \<mapsto> channel)))"
  by (simp add: NewGossip_def Let_def newGossipChannel_def)

theorem NewGossip_duplicate_or_fresh_witness:
  "gossipChannels router0 ''topology'' = Some (newGossipChannel 0 ''topology'' 1 3 RouterGossiper)
   \<and> fst (NewGossip router0 ''topology'' surrogateGossiper) = Inl (DuplicateChannel ''topology'')
   \<and> gossipChannels (snd (NewGossip router0 ''topology'' surrogateGossiper)) = gossipChannels router0
   \<and> GetGossip (snd (NewGossip router0 ''topology'' surrogateGossiper)) ''topology'' =
       Some (newGossipChannel 0 ''topology'' 1 3 RouterGossiper)
   \<and> gossipChannels router0 ''app'' = None
   \<and> (\<exists>channel.
         fst (NewGossip router0 ''app'' (ForeignGossiper ())) = Inr channel
         \<and> name channel = ''app'' \<and> gossiper channel = ForeignGossiper ()
         \<and> GetGossip (snd (NewGossip router0 ''app'' (ForeignGossiper ()))) ''app'' = Some channel)"
proof -
  note dup = NewGossip_duplicate_or_fresh [of router0 "''topology''" surrogateGossiper]
  note fresh = NewGossip_duplicate_or_fresh [of router0 "''app''" "ForeignGossiper ()"]
  from fresh gossipChannels_router0_app obtain channel where
    c: "fst (NewGossip router0 ''app'' (ForeignGossiper ())) = Inr channel"
      "name channel = ''app''" "gossiper channel = ForeignGossiper ()"
      "gossipChannels (snd (NewGossip router0 ''app'' (ForeignGossiper ()))) =
         (gossipChannels router0)(''app'' \<mapsto> channel)"
    by blast
  from c have "\<exists>channel.
         fst (NewGossip router0 ''app'' (ForeignGossiper ())) = Inr channel
         \<and> name channel = ''app'' \<and> gossiper channel = ForeignGossiper ()
         \<and> GetGossip (snd (NewGossip router0 ''app'' (ForeignGossiper ()))) ''app'' = Some channel"
    by (simp add: GetGossip_def)
  then show ?thesis
    using dup gossipChannels_router0_topology gossipChannels_router0_app
    by (simp add: GetGossip_def)
qed

lemma gossipChannel_known:
  "gossipChannels router channelName = Some channel \<Longrightarrow>
     gossipChannel router channelName = (channel, router)"
  by (simp add: gossipChannel_def gossipChannel_RLocked_def)

lemma gossipChannel_Locked_known:
  "gossipChannels router channelName = Some channel \<Longrightarrow>
     gossipChannel_Locked router channelName = (channel, router)"
  by (simp add: gossipChannel_Locked_def)

lemma gossipChannel_unknown:
  "gossipChannels router channelName = None \<Longrightarrow>
     gossipChannel router channelName = gossipChannel_Locked router channelName"
  by (simp add: gossipChannel_def gossipChannel_RLocked_def)

lemma gossipChannel_Locked_unknown:
  assumes "gossipChannels router channelName = None"
  shows "gossipChannel_Locked router channelName =
     (let channel = newGossipChannel (allocated router) channelName (Ourself router) (Routes router)
                (case GossiperMaker router of
                   Some MakeGossiper \<Rightarrow> MakeGossiper channelName
                 | None \<Rightarrow> surrogateGossiper)
      in (channel,
          router\<lparr>allocated := Suc (allocated router),
                 logger := logger router @ [(channelName, ''created surrogate channel'')],
                 gossipChannels := (gossipChannels router)(channelName \<mapsto> channel)\<rparr>))"
  using assms by (simp add: gossipChannel_Locked_def Let_def newGossipChannel_def)

lemma gossipChannel_Locked_stores:
  assumes "gossipChannels router n = None"
      and "gossipChannel_Locked router n = (channel, router1)"
  shows "gossipChannels router1 n = Some channel"
  using assms by (auto simp add: gossipChannel_Locked_unknown Let_def)

lemma resolver_step_inv:
  assumes unknown: "gossipChannels router n = None"
      and r1: "gossipChannel_Locked router n = (channel, router1)"
      and r: "r = router \<or> r = router1"
      and t: "t = AtRLock n \<or> t = AtLock n \<or> (t = Returned channel \<and> r = router1)"
      and step: "resolver_step r t = (t', r')"
  shows "(r' = router \<or> r' = router1) \<and> (r = router1 \<longrightarrow> r' = router1)
         \<and> (t' = AtRLock n \<or> t' = AtLock n \<or> (t' = Returned channel \<and> r' = router1))
         \<and> steps_left t' \<le> steps_left t - 1"
proof -
  note stored = gossipChannel_Locked_stores [OF unknown r1]
  from r show ?thesis
  proof
    assume "r = router"
    with t unknown r1 stored step show ?thesis
      by (auto simp add: gossipChannel_RLocked_def)
  next
    assume "r = router1"
    with t stored step show ?thesis
      by (auto simp add: gossipChannel_RLocked_def gossipChannel_Locked_known)
  qed
qed

lemma interleave_inv:
  assumes unknown: "gossipChannels router n = None"
      and r1: "gossipChannel_Locked router n = (channel, router1)"
  shows "(r = router \<or> r = router1) \<Longrightarrow>
         (\<forall>t\<in>set ts. t = AtRLock n \<or> t = AtLock n \<or> (t = Returned channel \<and> r = router1)) \<Longrightarrow>
         interleave sched (r, ts) = (r', ts') \<Longrightarrow>
         (r' = router \<or> r' = router1)
         \<and> (r = router1 \<longrightarrow> r' = router1)
         \<and> (\<forall>t\<in>set ts'. t = AtRLock n \<or> t = AtLock n \<or> (t = Returned channel \<and> r' = router1))
         \<and> length ts' = length ts
         \<and> ((\<forall>i<length ts. steps_left (ts ! i) \<le> count_list sched i) \<longrightarrow>
              (\<forall>t\<in>set ts'. steps_left t = 0))"
proof (induction sched arbitrary: r ts)
  case Nil
  then show ?case by (auto simp add: in_set_conv_nth)
next
  case (Cons j sched)
  show ?case
  proof (cases "j < length ts")
    case False
    with Cons.prems(3) have run: "interleave sched (r, ts) = (r', ts')" by simp
    have "\<forall>i<length ts. count_list (j # sched) i = count_list sched i"
      using False by auto
    with Cons.IH [OF Cons.prems(1) Cons.prems(2) run] show ?thesis by simp
  next
    case True
    obtain t2 r2 where step: "resolver_step r (ts ! j) = (t2, r2)"
      by (cases "resolver_step r (ts ! j)")
    from True Cons.prems(2) have tj:
      "ts ! j = AtRLock n \<or> ts ! j = AtLock n \<or> (ts ! j = Returned channel \<and> r = router1)"
      by simp
    note s = resolver_step_inv [OF unknown r1 Cons.prems(1) tj step]
    from True step Cons.prems(3) have run: "interleave sched (r2, ts[j := t2]) = (r', ts')"
      by simp
    have inv2: "\<forall>t\<in>set (ts[j := t2]).
        t = AtRLock n \<or> t = AtLock n \<or> (t = Returned channel \<and> r2 = router1)"
    proof
      fix t assume "t \<in> set (ts[j := t2])"
      then have "t = t2 \<or> t \<in> set ts"
        using set_update_subset_insert [of ts j t2] by auto
      with s Cons.prems(2) show
        "t = AtRLock n \<or> t = AtLock n \<or> (t = Returned channel \<and> r2 = router1)"
        by auto
    qed
    from s have r2: "r2 = router \<or> r2 = router1" by simp
    note IH = Cons.IH [OF r2 inv2 run]
    have fair: "(\<forall>i<length ts. steps_left (ts ! i) \<le> count_list (j # sched) i) \<Longrightarrow>
        (\<forall>i<length (ts[j := t2]). steps_left (ts[j := t2] ! i) \<le> count_list sched i)"
    proof (intro allI impI)
      fix i
      assume a: "\<forall>i<length ts. steps_left (ts ! i) \<le> count_list (j # sched) i"
        and i: "i < length (ts[j := t2])"
      show "steps_left (ts[j := t2] ! i) \<le> count_list sched i"
      proof (cases "i = j")
        case True
        from a \<open>j < length ts\<close> have "steps_left (ts ! j) \<le> count_list (j # sched) j" by blast
        then have "steps_left (ts ! j) \<le> Suc (count_list sched j)" by simp
        with s have "steps_left t2 \<le> count_list sched j" by linarith
        with True \<open>j < length ts\<close> show ?thesis by simp
      next
        case False
        from a i have "steps_left (ts ! i) \<le> count_list (j # sched) i" by simp
        with False i show ?thesis by simp
      qed
    qed
    have len: "length (ts[j := t2]) = length ts" by simp
    from IH have c1: "r' = router \<or> r' = router1" by blast
    from IH s have c0: "r = router1 \<longrightarrow> r' = router1" by blast
    from IH have c2: "\<forall>t\<in>set ts'. t = AtRLock n \<or> t = AtLock n \<or> (t = Returned channel \<and> r' = router1)"
      by blast
    from IH len have c3: "length ts' = length ts" by simp
    from IH have c4': "(\<forall>i<length (ts[j := t2]). steps_left (ts[j := t2] ! i) \<le> count_list sched i) \<longrightarrow>
              (\<forall>t\<in>set ts'. steps_left t = 0)" by blast
    have c4: "(\<forall>i<length ts. steps_left (ts ! i) \<le> count_list (j # sched) i) \<longrightarrow>
              (\<forall>t\<in>set ts'. steps_left t = 0)"
    proof
      assume "\<forall>i<length ts. steps_left (ts ! i) \<le> count_list (j # sched) i"
      from fair [OF this] c4' show "\<forall>t\<in>set ts'. steps_left t = 0" by blast
    qed
    from c0 c1 c2 c3 c4 show ?thesis by blast
  qed
qed


lemma interleave_from_start:
  assumes unknown: "gossipChannels router n = None"
      and r1: "gossipChannel_Locked router n = (channel, router1)"
      and start: "r = router \<or> r = router1"
      and run: "interleave sched (r, replicate k (AtRLock n)) = (r', ts')"
  shows "(r' = router \<or> r' = router1)
         \<and> (r = router1 \<longrightarrow> r' = router1)
         \<and> (\<forall>t\<in>set ts'. t = AtRLock n \<or> t = AtLock n \<or> (t = Returned channel \<and> r' = router1))
         \<and> ((\<forall>i<k. 2 \<le> count_list sched i) \<longrightarrow> ts' = replicate k (Returned channel))"
proof -
  have init: "\<forall>t\<in>set (replicate k (AtRLock n)).
      t = AtRLock n \<or> t = AtLock n \<or> (t = Returned channel \<and> r = router1)"
    by simp
  note inv = interleave_inv [OF unknown r1 start init run]
  from inv have len: "length ts' = k" by simp
  from inv have shape:
    "\<forall>t\<in>set ts'. t = AtRLock n \<or> t = AtLock n \<or> (t = Returned channel \<and> r' = router1)"
    by blast
  have allret: "ts' = replicate k (Returned channel)" if fair: "\<forall>i<k. 2 \<le> count_list sched i"
  proof (rule replicate_eqI [OF len])
    fix t assume t: "t \<in> set ts'"
    from fair have "\<forall>i<length (replicate k (AtRLock n)).
        steps_left (replicate k (AtRLock n) ! i) \<le> count_list sched i"
      by simp
    with inv have "\<forall>t\<in>set ts'. steps_left t = 0" by blast
    with t have "steps_left t = 0" by blast
    moreover from shape t have
      "t = AtRLock n \<or> t = AtLock n \<or> (t = Returned channel \<and> r' = router1)" by blast
    ultimately show "t = Returned channel" by auto
  qed
  from inv have "r' = router \<or> r' = router1" and "r = router1 \<longrightarrow> r' = router1"
    by blast+
  with shape allret show ?thesis by blast
qed

text \<open>
  C6. For every name not in the registry, \<^verbatim>\<open>gossipChannel\<close> creates one surrogate channel
  (one allocation, one log line) and stores it under the name; its gossiper is the one the
  \<^verbatim>\<open>GossiperMaker\<close> makes for the name when the router has a maker, and the default
  surrogate gossiper otherwise. Every later resolve of the name, in any router state that
  still holds the channel, returns that channel and changes nothing. When any number of
  goroutines resolve the name concurrently (before or after the channel exists), in
  whatever order their critical sections run, the router is at every moment either
  untouched or exactly as one sequential resolve leaves it, every goroutine that has
  returned holds that one channel, and once each has run its two critical sections all
  have returned it.
\<close>

theorem gossipChannel_creates_one_surrogate:
  assumes unknown: "gossipChannels router channelName = None"
  shows
    "let channel = newGossipChannel (allocated router) channelName (Ourself router) (Routes router)
                     (case GossiperMaker router of
                        Some MakeGossiper \<Rightarrow> MakeGossiper channelName
                      | None \<Rightarrow> surrogateGossiper);
         router1 = snd (gossipChannel router channelName)
     in fst (gossipChannel router channelName) = channel
        \<and> gossipChannels router1 = (gossipChannels router)(channelName \<mapsto> channel)
        \<and> allocated router1 = Suc (allocated router)
        \<and> logger router1 = logger router @ [(channelName, ''created surrogate channel'')]
        \<and> gossipChannel router1 channelName = (channel, router1)
        \<and> (\<forall>later. gossipChannels later channelName = Some channel \<longrightarrow>
              gossipChannel later channelName = (channel, later))
        \<and> (\<forall>sched k start router' ts'.
              (start = router \<or> start = router1) \<and>
              interleave sched (start, replicate k (AtRLock channelName)) = (router', ts') \<longrightarrow>
                (router' = router \<or> router' = router1)
                \<and> (start = router1 \<longrightarrow> router' = router1)
                \<and> (\<forall>t\<in>set ts'. t = AtRLock channelName \<or> t = AtLock channelName
                       \<or> (t = Returned channel \<and> router' = router1))
                \<and> ((\<forall>i<k. 2 \<le> count_list sched i) \<longrightarrow> ts' = replicate k (Returned channel)))"
proof -
  define channel where "channel = newGossipChannel (allocated router) channelName
      (Ourself router) (Routes router)
      (case GossiperMaker router of
         Some MakeGossiper \<Rightarrow> MakeGossiper channelName
       | None \<Rightarrow> surrogateGossiper)"
  define router1 where "router1 = snd (gossipChannel router channelName)"
  have locked: "gossipChannel_Locked router channelName =
      (channel,
       router\<lparr>allocated := Suc (allocated router),
              logger := logger router @ [(channelName, ''created surrogate channel'')],
              gossipChannels := (gossipChannels router)(channelName \<mapsto> channel)\<rparr>)"
    using gossipChannel_Locked_unknown [OF unknown] by (simp add: channel_def Let_def)
  have seq: "gossipChannel router channelName = gossipChannel_Locked router channelName"
    by (rule gossipChannel_unknown [OF unknown])
  have r1: "gossipChannel_Locked router channelName = (channel, router1)"
    using locked seq by (simp add: router1_def)
  have a: "fst (gossipChannel router channelName) = channel"
    using seq locked by simp
  have b: "gossipChannels router1 = (gossipChannels router)(channelName \<mapsto> channel)"
    using seq locked by (simp add: router1_def)
  have c: "allocated router1 = Suc (allocated router)"
    using seq locked by (simp add: router1_def)
  have d: "logger router1 = logger router @ [(channelName, ''created surrogate channel'')]"
    using seq locked by (simp add: router1_def)
  have e: "gossipChannel router1 channelName = (channel, router1)"
    by (rule gossipChannel_known) (simp add: b)
  have f: "\<forall>later. gossipChannels later channelName = Some channel \<longrightarrow>
              gossipChannel later channelName = (channel, later)"
    by (simp add: gossipChannel_known)
  have g: "\<forall>sched k start router' ts'.
      (start = router \<or> start = router1) \<and>
      interleave sched (start, replicate k (AtRLock channelName)) = (router', ts') \<longrightarrow>
        (router' = router \<or> router' = router1)
        \<and> (start = router1 \<longrightarrow> router' = router1)
        \<and> (\<forall>t\<in>set ts'. t = AtRLock channelName \<or> t = AtLock channelName
               \<or> (t = Returned channel \<and> router' = router1))
        \<and> ((\<forall>i<k. 2 \<le> count_list sched i) \<longrightarrow> ts' = replicate k (Returned channel))"
  proof (intro allI impI)
    fix sched k start router' ts'
    assume "(start = router \<or> start = router1) \<and>
      interleave sched (start, replicate k (AtRLock channelName)) = (router', ts')"
    then have st: "start = router \<or> start = router1"
      and run: "interleave sched (start, replicate k (AtRLock channelName)) = (router', ts')"
      by blast+
    show "(router' = router \<or> router' = router1)
        \<and> (start = router1 \<longrightarrow> router' = router1)
        \<and> (\<forall>t\<in>set ts'. t = AtRLock channelName \<or> t = AtLock channelName
               \<or> (t = Returned channel \<and> router' = router1))
        \<and> ((\<forall>i<k. 2 \<le> count_list sched i) \<longrightarrow> ts' = replicate k (Returned channel))"
      by (rule interleave_from_start [OF unknown r1 st run])
  qed
  from a b c d e f g show ?thesis
    unfolding Let_def channel_def [symmetric] router1_def [symmetric] by blast
qed

lemma fair_0101: "\<forall>i<2. 2 \<le> count_list [0, 1, 0, 1] (i::nat)"
  by (simp add: less_Suc_eq numeral_2_eq_2)

theorem gossipChannel_creates_one_surrogate_witness:
  "gossipChannels router0 ''app'' = None
   \<and> fst (gossipChannel router0 ''app'') = newGossipChannel 1 ''app'' 1 3 surrogateGossiper
   \<and> allocated (snd (gossipChannel router0 ''app'')) = 2
   \<and> gossipChannel (snd (gossipChannel router0 ''app'')) ''app'' =
       (newGossipChannel 1 ''app'' 1 3 surrogateGossiper, snd (gossipChannel router0 ''app''))
   \<and> snd (interleave [0, 1, 0, 1] (router0, replicate 2 (AtRLock ''app''))) =
       replicate 2 (Returned (newGossipChannel 1 ''app'' 1 3 surrogateGossiper))"
proof -
  have h: "gossipChannels router0 ''app'' = None"
    by (simp add: router0_def)
  have ch: "newGossipChannel (allocated router0) ''app'' (Ourself router0) (Routes router0)
              (case GossiperMaker router0 of
                 Some MakeGossiper \<Rightarrow> MakeGossiper ''app''
               | None \<Rightarrow> surrogateGossiper) =
            newGossipChannel 1 ''app'' 1 3 surrogateGossiper"
    by (simp add: router0_def)
  have al: "Suc (allocated router0) = 2"
    by (simp add: router0_def)
  note inst = gossipChannel_creates_one_surrogate [OF h, unfolded Let_def ch al]
  obtain r' ts' where run:
    "interleave [0, 1, 0, 1] (router0, replicate 2 (AtRLock ''app'')) = (r', ts')"
    by (cases "interleave [0, 1, 0, 1] (router0, replicate 2 (AtRLock ''app''))")
  from inst run fair_0101
  have "ts' = replicate 2 (Returned (newGossipChannel 1 ''app'' 1 3 surrogateGossiper))"
    by blast
  with run have "snd (interleave [0, 1, 0, 1] (router0, replicate 2 (AtRLock ''app''))) =
       replicate 2 (Returned (newGossipChannel 1 ''app'' 1 3 surrogateGossiper))"
    by (simp only: snd_conv)
  with h inst show ?thesis by blast
qed

subsection \<open>Unicast on the topology channel\<close>

text \<open>
  C7. For every router state, sender and message, the topology channel's
  \<^verbatim>\<open>OnGossipUnicast\<close> returns a non-nil error, and the router it leaves behind (the Peers
  object included) is the router it was given.
\<close>

theorem OnGossipUnicast_always_fails:
  "fst (OnGossipUnicast router sender msg) = Some (UnexpectedTopologyUnicast msg)
   \<and> fst (OnGossipUnicast router sender msg) \<noteq> None
   \<and> snd (OnGossipUnicast router sender msg) = router
   \<and> Peers_obj (snd (OnGossipUnicast router sender msg)) = Peers_obj router"
  by (simp add: OnGossipUnicast_def)

subsection \<open>Dispatch\<close>


lemma byte_codec_no_sender:
  "Decode_string byte_codec (NewDecoder byte_codec [3, 97, 112, 112]) = Inr (''app'', [])"
  "Decode_PeerName byte_codec [] = Inl (ForeignError ''EOF'')"
  unfolding byte_codec_def by code_simp+





text \<open>
  C10. For every inbound message whose channel name decodes, whose sender does not, and
  whose channel name the registry does not know: \<^verbatim>\<open>handleGossip\<close> returns the decode
  error, and the router it leaves is the one the resolve produced, in which a newly
  allocated surrogate channel is registered under the name.
\<close>

theorem handleGossip_rejected_message_leaves_surrogate:
  assumes "Decode_string gob (NewDecoder gob payload) = Inr (channelName, d1)"
      and "Decode_PeerName gob d1 = Inl err"
      and "gossipChannels router channelName = None"
  shows "fst (handleGossip gob dl router tag payload) = Some err
         \<and> snd (handleGossip gob dl router tag payload) = snd (gossipChannel router channelName)
         \<and> gossipChannels (snd (handleGossip gob dl router tag payload)) channelName =
             Some (newGossipChannel (allocated router) channelName (Ourself router) (Routes router)
                     (case GossiperMaker router of
                        Some MakeGossiper \<Rightarrow> MakeGossiper channelName
                      | None \<Rightarrow> surrogateGossiper))
         \<and> allocated (snd (handleGossip gob dl router tag payload)) = Suc (allocated router)"
proof -
  have hg: "handleGossip gob dl router tag payload =
      (Some err, snd (gossipChannel router channelName))"
    using assms(1,2) by (simp add: handleGossip_def Let_def split: prod.splits)
  have "gossipChannel router channelName = gossipChannel_Locked router channelName"
    by (rule gossipChannel_unknown [OF assms(3)])
  with gossipChannel_Locked_unknown [OF assms(3)] hg show ?thesis
    by (simp add: Let_def)
qed


theorem handleGossip_rejected_message_leaves_surrogate_witness:
  "Decode_string byte_codec (NewDecoder byte_codec [3, 97, 112, 112]) = Inr (''app'', [])
   \<and> Decode_PeerName byte_codec [] = Inl (ForeignError ''EOF'')
   \<and> gossipChannels router0 ''app'' = None
   \<and> fst (handleGossip byte_codec logging_deliveries router0 ProtocolGossipBroadcast [3, 97, 112, 112]) =
       Some (ForeignError ''EOF'')
   \<and> GetGossip (snd (handleGossip byte_codec logging_deliveries router0 ProtocolGossipBroadcast
                       [3, 97, 112, 112])) ''app'' =
       Some (newGossipChannel 1 ''app'' 1 3 surrogateGossiper)"
proof -
  have h: "gossipChannels router0 ''app'' = None" by (simp add: router0_def)
  have ch: "newGossipChannel (allocated router0) ''app'' (Ourself router0) (Routes router0)
              (case GossiperMaker router0 of
                 Some MakeGossiper \<Rightarrow> MakeGossiper ''app''
               | None \<Rightarrow> surrogateGossiper) =
            newGossipChannel 1 ''app'' 1 3 surrogateGossiper"
    by (simp add: router0_def)
  note inst = handleGossip_rejected_message_leaves_surrogate
      [OF byte_codec_no_sender h, where dl = logging_deliveries and tag = ProtocolGossipBroadcast,
       unfolded ch]
  from inst h byte_codec_no_sender show ?thesis
    unfolding GetGossip_def by blast
qed

subsection \<open>The rate limiter\<close>

lemma wait_token_available:
  assumes "0 < refillDelay tb" and "0 < tokens tb" and "tokens tb \<le> capacity tb"
      and "lastConsumption tb = None \<or> lastConsumption tb = Some now"
  shows "wait now tb = Some (now, tb\<lparr>tokens := tokens tb - 1, lastConsumption := Some now\<rparr>)"
proof -
  from assms(1,4) have "regenerated now tb = 0"
    by (auto simp add: regenerated_def)
  with assms(2,3) have "available now tb = tokens tb"
    by (simp add: available_def)
  with assms(2,3) show ?thesis
    by (simp add: wait_def)
qed

lemma div_delay_le_0:
  fixes d :: int
  assumes "0 < d" and "x < d"
  shows "x div d \<le> 0"
proof -
  from assms have "x div d \<le> (d - 1) div d"
    by (intro zdiv_mono1) simp_all
  also from assms(1) have "(d - 1) div d = 0"
    by (intro div_pos_pos_trivial) simp_all
  finally show ?thesis .
qed

lemma wait_empty_blocks:
  assumes "0 < refillDelay tb" and "0 < capacity tb" and "tokens tb = 0"
      and "lastConsumption tb = Some t0" and "now < t0 + refillDelay tb"
  shows "wait now tb =
           Some (t0 + refillDelay tb, tb\<lparr>tokens := 0, lastConsumption := Some (t0 + refillDelay tb)\<rparr>)"
proof -
  from assms(5) have "now - t0 < refillDelay tb" by simp
  with assms(1) have "(now - t0) div refillDelay tb \<le> 0" by (rule div_delay_le_0)
  with assms(1,4) have "regenerated now tb = 0"
    by (simp add: regenerated_def)
  with assms(3) have "available now tb = 0"
    by (simp add: available_def)
  with assms(2,4) show ?thesis
    by (simp add: wait_def Let_def)
qed

lemma waits_burst:
  assumes "0 < refillDelay tb"
  shows "k \<le> tokens tb \<Longrightarrow> tokens tb \<le> capacity tb \<Longrightarrow>
         lastConsumption tb = None \<or> lastConsumption tb = Some now \<Longrightarrow>
         refillDelay tb = d \<Longrightarrow>
         waits k now tb =
           Some (replicate k now,
                 if k = 0 then tb else tb\<lparr>tokens := tokens tb - k, lastConsumption := Some now\<rparr>)"
  using assms
proof (induction k arbitrary: tb)
  case 0
  then show ?case by simp
next
  case (Suc k)
  let ?tb1 = "tb\<lparr>tokens := tokens tb - 1, lastConsumption := Some now\<rparr>"
  from Suc.prems have w: "wait now tb = Some (now, ?tb1)"
    by (intro wait_token_available) auto
  from Suc.prems have "waits k now ?tb1 =
      Some (replicate k now,
            if k = 0 then ?tb1 else ?tb1\<lparr>tokens := tokens ?tb1 - k, lastConsumption := Some now\<rparr>)"
    by (intro Suc.IH) auto
  with w show ?case by (cases k) auto
qed

lemma wait_blocks_until_token:
  assumes cap: "0 < capacity tb" and d: "0 < refillDelay tb"
      and full: "lastConsumption tb = None \<longrightarrow> tokens tb = capacity tb"
  shows "\<exists>t tb'. wait now tb = Some (t, tb') \<and> now \<le> t
           \<and> (\<forall>s. now \<le> s \<and> s < t \<longrightarrow> available s tb = 0)
           \<and> 0 < available t tb
           \<and> tokens tb' = available t tb - 1
           \<and> lastConsumption tb' = Some t"
proof (cases "0 < available now tb")
  case True
  with cap have "wait now tb =
      Some (now, tb\<lparr>tokens := available now tb - 1, lastConsumption := Some now\<rparr>)"
    by (simp add: wait_def)
  with True show ?thesis by simp
next
  case False
  then have none: "available now tb = 0" by simp
  with cap full obtain t0 where last: "lastConsumption tb = Some t0"
    by (cases "lastConsumption tb") (auto simp add: available_def regenerated_def)
  from none cap have tok: "tokens tb = 0" and reg: "regenerated now tb = 0"
    by (auto simp add: available_def min_def split: if_splits)
  let ?t = "t0 + refillDelay tb"
  from none cap last have w: "wait now tb =
      Some (?t, tb\<lparr>tokens := 0, lastConsumption := Some ?t\<rparr>)"
    by (simp add: wait_def Let_def)
  from reg last d have "(now - t0) div refillDelay tb \<le> 0"
    by (simp add: regenerated_def)
  have "now - t0 < refillDelay tb"
  proof (rule ccontr)
    assume "\<not> now - t0 < refillDelay tb"
    then have "refillDelay tb \<le> now - t0" by simp
    with d have "refillDelay tb div refillDelay tb \<le> (now - t0) div refillDelay tb"
      by (intro zdiv_mono1) simp_all
    with d have "1 \<le> (now - t0) div refillDelay tb" by simp
    with \<open>(now - t0) div refillDelay tb \<le> 0\<close> show False by simp
  qed
  then have later: "now \<le> ?t" by simp
  have before: "\<forall>s. now \<le> s \<and> s < ?t \<longrightarrow> available s tb = 0"
  proof (intro allI impI)
    fix s assume "now \<le> s \<and> s < ?t"
    then have "s - t0 < refillDelay tb" by simp
    with d have "(s - t0) div refillDelay tb \<le> 0" by (rule div_delay_le_0)
    with last d tok show "available s tb = 0"
      by (simp add: available_def regenerated_def)
  qed
  from last d tok cap have at: "available ?t tb = 1"
    by (simp add: available_def regenerated_def)
  from w later before at show ?thesis by simp
qed

text \<open>
  C9. For a rate limiter of capacity \<open>C > 0\<close> and refill delay \<open>D > 0\<close> (the accept loop's
  is built with \<open>C = 20\<close> and \<open>D = 50ms\<close>): \<open>C\<close> calls of \<^verbatim>\<open>Wait()\<close> issued back to back
  at \<open>now\<close> on a new bucket all return at \<open>now\<close>, and the next call issued at \<open>now\<close>
  returns at \<open>now + D\<close>. In general a call issued at \<open>at\<close> returns at the first moment
  \<open>t \<ge> at\<close> at which a token is available and takes that token.
\<close>

theorem tokenBucket_burst_then_block:
  assumes "0 < C" and "0 < D"
  shows "waits C now (newTokenBucket C D) =
           Some (replicate C now,
                 \<lparr>capacity = C, tokens = 0, refillDelay = D, lastConsumption = Some now\<rparr>)
         \<and> wait now \<lparr>capacity = C, tokens = 0, refillDelay = D, lastConsumption = Some now\<rparr> =
           Some (now + D,
                 \<lparr>capacity = C, tokens = 0, refillDelay = D, lastConsumption = Some (now + D)\<rparr>)
         \<and> (\<forall>tb at. capacity tb = C \<and> refillDelay tb = D
                \<and> (lastConsumption tb = None \<longrightarrow> tokens tb = C) \<longrightarrow>
              (\<exists>t tb'. wait at tb = Some (t, tb') \<and> at \<le> t
                 \<and> (\<forall>s. at \<le> s \<and> s < t \<longrightarrow> available s tb = 0)
                 \<and> 0 < available t tb
                 \<and> tokens tb' = available t tb - 1
                 \<and> lastConsumption tb' = Some t))"
proof -
  have "waits C now (newTokenBucket C D) =
      Some (replicate C now,
        if C = 0 then newTokenBucket C D
        else (newTokenBucket C D)\<lparr>tokens := tokens (newTokenBucket C D) - C,
                                    lastConsumption := Some now\<rparr>)"
    using assms(2) by (intro waits_burst [where d = D]) (simp_all add: newTokenBucket_def)
  with assms(1) have burst: "waits C now (newTokenBucket C D) =
           Some (replicate C now,
                 \<lparr>capacity = C, tokens = 0, refillDelay = D, lastConsumption = Some now\<rparr>)"
    by (simp add: newTokenBucket_def)
  have block: "wait now \<lparr>capacity = C, tokens = 0, refillDelay = D, lastConsumption = Some now\<rparr> =
           Some (now + D,
                 \<lparr>capacity = C, tokens = 0, refillDelay = D, lastConsumption = Some (now + D)\<rparr>)"
    using assms wait_empty_blocks [of "\<lparr>capacity = C, tokens = 0, refillDelay = D, lastConsumption = Some now\<rparr>" now now]
    by simp
  have general: "\<forall>tb at. capacity tb = C \<and> refillDelay tb = D
                \<and> (lastConsumption tb = None \<longrightarrow> tokens tb = C) \<longrightarrow>
              (\<exists>t tb'. wait at tb = Some (t, tb') \<and> at \<le> t
                 \<and> (\<forall>s. at \<le> s \<and> s < t \<longrightarrow> available s tb = 0)
                 \<and> 0 < available t tb
                 \<and> tokens tb' = available t tb - 1
                 \<and> lastConsumption tb' = Some t)"
  proof (intro allI impI)
    fix tb :: tokenBucket and at
    assume a: "capacity tb = C \<and> refillDelay tb = D
                \<and> (lastConsumption tb = None \<longrightarrow> tokens tb = C)"
    with assms have "0 < capacity tb" "0 < refillDelay tb"
      "lastConsumption tb = None \<longrightarrow> tokens tb = capacity tb"
      by simp_all
    then show "\<exists>t tb'. wait at tb = Some (t, tb') \<and> at \<le> t
                 \<and> (\<forall>s. at \<le> s \<and> s < t \<longrightarrow> available s tb = 0)
                 \<and> 0 < available t tb
                 \<and> tokens tb' = available t tb - 1
                 \<and> lastConsumption tb' = Some t"
      by (rule wait_blocks_until_token)
  qed
  from burst block general show ?thesis by blast
qed

theorem tokenBucket_burst_then_block_witness:
  "0 < acceptMaxTokens \<and> 0 < acceptTokenDelay
   \<and> acceptLimiter router0 = Some (newTokenBucket acceptMaxTokens acceptTokenDelay)
   \<and> waits 20 0 (newTokenBucket acceptMaxTokens acceptTokenDelay) =
       Some (replicate 20 0,
             \<lparr>capacity = 20, tokens = 0, refillDelay = 50000000, lastConsumption = Some 0\<rparr>)
   \<and> wait 0 \<lparr>capacity = 20, tokens = 0, refillDelay = 50000000, lastConsumption = Some 0\<rparr> =
       Some (50000000,
             \<lparr>capacity = 20, tokens = 0, refillDelay = 50000000, lastConsumption = Some 50000000\<rparr>)
   \<and> (\<exists>t tb'.
         wait 10 \<lparr>capacity = 20, tokens = 0, refillDelay = 50000000, lastConsumption = Some 0\<rparr> =
           Some (t, tb')
         \<and> 10 \<le> t
         \<and> 0 < available t
               \<lparr>capacity = 20, tokens = 0, refillDelay = 50000000, lastConsumption = Some 0\<rparr>
         \<and> lastConsumption tb' = Some t)"
proof -
  have c: "0 < acceptMaxTokens" by (simp add: acceptMaxTokens_def)
  have d: "0 < acceptTokenDelay" by (simp add: acceptTokenDelay_def Millisecond_def)
  have v: "acceptMaxTokens = 20" "acceptTokenDelay = 50000000"
    by (simp_all add: acceptMaxTokens_def acceptTokenDelay_def Millisecond_def)
  have l: "acceptLimiter router0 = Some (newTokenBucket acceptMaxTokens acceptTokenDelay)"
    by (simp add: router0_def)
  note inst = tokenBucket_burst_then_block [OF c d, of 0, unfolded v]
  from inst have burst: "waits 20 0 (newTokenBucket 20 50000000) =
       Some (replicate 20 0,
             \<lparr>capacity = 20, tokens = 0, refillDelay = 50000000, lastConsumption = Some 0\<rparr>)"
    by (rule conjunct1)
  from inst have "wait 0 \<lparr>capacity = 20, tokens = 0, refillDelay = 50000000, lastConsumption = Some 0\<rparr> =
       Some (0 + 50000000,
             \<lparr>capacity = 20, tokens = 0, refillDelay = 50000000, lastConsumption = Some (0 + 50000000)\<rparr>)"
    by blast
  then have block: "wait 0 \<lparr>capacity = 20, tokens = 0, refillDelay = 50000000, lastConsumption = Some 0\<rparr> =
       Some (50000000,
             \<lparr>capacity = 20, tokens = 0, refillDelay = 50000000, lastConsumption = Some 50000000\<rparr>)"
    by simp
  let ?tb = "\<lparr>capacity = 20, tokens = 0, refillDelay = 50000000, lastConsumption = Some 0\<rparr>"
  have wf: "capacity ?tb = 20 \<and> refillDelay ?tb = 50000000
      \<and> (lastConsumption ?tb = None \<longrightarrow> tokens ?tb = 20)"
    by simp
  note general = inst [THEN conjunct2, THEN conjunct2, THEN spec, THEN spec, THEN mp]
  from wf have "\<exists>t tb'. wait 10 ?tb = Some (t, tb') \<and> 10 \<le> t
                 \<and> (\<forall>s. 10 \<le> s \<and> s < t \<longrightarrow> available s ?tb = 0)
                 \<and> 0 < available t ?tb
                 \<and> tokens tb' = available t ?tb - 1
                 \<and> lastConsumption tb' = Some t"
    by (rule general)
  then have later: "\<exists>t tb'. wait 10 ?tb = Some (t, tb') \<and> 10 \<le> t
                 \<and> 0 < available t ?tb \<and> lastConsumption tb' = Some t"
    by blast
  from burst block later c d l show ?thesis
    unfolding v by blast
qed

end
